theory Spec2Isabelle
  imports Main "HOL-Library.Word"
begin

section \<open>JavaScript values\<close>

text \<open>
  The library (src/index.js) passes dynamically typed values around: option maps whose
  values are booleans, null, strings or numbers, volume mappings whose values are strings
  or \<open>{path, mode}\<close> objects, and commands that are a string or an array.
  An object is the list of its own enumerable properties in enumeration order. A number
  is an integer from \<open>-2^53\<close> to \<open>2^53 - 1\<close>, held in 54 bits and read as signed:
  each of them is a JavaScript number, none exceeds \<open>Number.MAX_SAFE_INTEGER\<close>, and
  \<open>String\<close> prints each in plain decimal digits. Fractions, larger magnitudes, \<open>NaN\<close>
  and the infinities are not values of the model.
\<close>

datatype jsval =
    JUndefined
  | JNull
  | JBool bool
  | JNum "54 word"
  | JStr string
  | JArr "jsval list"
  | JObj "(string \<times> jsval) list"

type_synonym obj = "(string \<times> jsval) list"

datatype error =
    InvalidMappingSpec jsval  \<comment> \<open>\<open>new Error(`Invalid mapping spec ${JSON.stringify(v)}`)\<close>, carrying \<open>v\<close>\<close>
  | Error string              \<comment> \<open>any other \<open>Error\<close>, with its message\<close>

definition digit :: "nat \<Rightarrow> char" where
  "digit d = ''0123456789'' ! d"

fun string_of_nat :: "nat \<Rightarrow> string" where
  "string_of_nat n =
     (if n < 10 then [digit n] else string_of_nat (n div 10) @ [digit (n mod 10)])"

definition string_of_int :: "int \<Rightarrow> string" where
  "string_of_int i = (if i < 0 then CHR ''-'' # string_of_nat (nat (- i)) else string_of_nat (nat i))"

fun join :: "string \<Rightarrow> string list \<Rightarrow> string" where
  "join sep [] = []"
| "join sep [s] = s"
| "join sep (s # t # rest) = s @ sep @ join sep (t # rest)"

text \<open>
  \<open>String(v)\<close>, as a template literal \<open>`${v}`\<close> computes it. \<open>Array.prototype.join\<close>
  renders \<open>null\<close> and \<open>undefined\<close> elements as the empty string and every other element
  by \<open>String\<close>; an array's own \<open>String\<close> is its \<open>join(',')\<close>.
\<close>

fun js_toString :: "jsval \<Rightarrow> string" where
  "js_toString JUndefined = ''undefined''"
| "js_toString JNull = ''null''"
| "js_toString (JBool b) = (if b then ''true'' else ''false'')"
| "js_toString (JNum n) = string_of_int (sint n)"
| "js_toString (JStr s) = s"
| "js_toString (JArr xs) =
     join '','' (map (\<lambda>x. if x = JNull \<or> x = JUndefined then [] else js_toString x) xs)"
| "js_toString (JObj ps) = ''[object Object]''"

definition js_join :: "string \<Rightarrow> jsval list \<Rightarrow> string" where
  "js_join sep xs =
     join sep (map (\<lambda>x. if x = JNull \<or> x = JUndefined then [] else js_toString x) xs)"

text \<open>Truthiness, as \<open>if (mode)\<close> and \<open>options.force ? .. : ..\<close> test it.\<close>

fun truthy :: "jsval \<Rightarrow> bool" where
  "truthy JUndefined = False"
| "truthy JNull = False"
| "truthy (JBool b) = b"
| "truthy (JNum n) = (n \<noteq> 0)"
| "truthy (JStr s) = (s \<noteq> [])"
| "truthy (JArr xs) = True"
| "truthy (JObj ps) = True"

text \<open>Property read \<open>o.k\<close>: \<open>undefined\<close> when the property is absent.\<close>

fun js_get :: "jsval \<Rightarrow> string \<Rightarrow> jsval" where
  "js_get (JObj ps) k = (case map_of ps k of Some v \<Rightarrow> v | None \<Rightarrow> JUndefined)"
| "js_get v k = JUndefined"

text \<open>\<open>Array.prototype.concat\<close> splices an array argument in and appends any other value.\<close>

fun concat_arg :: "jsval \<Rightarrow> jsval list" where
  "concat_arg (JArr xs) = xs"
| "concat_arg v = [v]"

subsection \<open>Helpers of nami-utils/lodash-extra\<close>

text \<open>
  \<open>_.isString\<close>, \<open>_.isReallyObject\<close> and \<open>_.opts\<close> come from the packages lodash and
  nami-utils, which are dependencies and not part of this repository.
  \<open>_.isReallyObject\<close> holds of key-value objects and of neither arrays nor primitives.
  \<open>_.opts(options, defaults)\<close> is \<open>_.defaults\<close> on a copy of \<open>options\<close> (or of \<open>{}\<close>
  when \<open>options\<close> is missing): a key of \<open>options\<close> keeps its place and its value, unless
  the value is \<open>undefined\<close> and \<open>defaults\<close> has the key; the defaults' other keys follow.
  The repository's tests fix that order: \<open>{name: 'test', privileged: true}\<close> over the
  defaults \<open>interactive, tty\<close> gives \<open>--name test --privileged --interactive --tty\<close>.
\<close>

fun isString :: "jsval \<Rightarrow> bool" where
  "isString (JStr s) = True"
| "isString v = False"

fun isReallyObject :: "jsval \<Rightarrow> bool" where
  "isReallyObject (JObj ps) = True"
| "isReallyObject v = False"

definition opts :: "obj option \<Rightarrow> obj \<Rightarrow> obj" where
  "opts options defaults =
     (let given = (case options of None \<Rightarrow> [] | Some ps \<Rightarrow> ps)
      in map (\<lambda>(k, v). (k, if v = JUndefined
                             then (case map_of defaults k of Some d \<Rightarrow> d | None \<Rightarrow> v)
                             else v)) given
         @ filter (\<lambda>(k, d). k \<notin> fst ` set given) defaults)"

subsection \<open>What \<open>_.each\<close> visits\<close>

text \<open>
  lodash's \<open>_.each\<close> does not always visit the own properties of an object. When the
  object has a \<open>length\<close> that is a number, an integer, not negative and at most
  \<open>Number.MAX_SAFE_INTEGER\<close> (\<open>isLength\<close>; the last holds of every number of the
  model), the object is array-like: \<open>_.each\<close> then visits the indices \<open>0\<close> to
  \<open>length - 1\<close>, passing the value read at the index (\<open>undefined\<close> when there is none)
  and the index, which a template literal renders in decimal digits. Otherwise it visits
  the own properties in enumeration order. \<open>each_visits\<close> is the list of the pairs of key
  and value that the callback receives.
\<close>

fun isLength :: "jsval \<Rightarrow> bool" where
  "isLength (JNum n) = (0 \<le> sint n)"
| "isLength v = False"

fun length_of :: "jsval \<Rightarrow> nat" where
  "length_of (JNum n) = nat (sint n)"
| "length_of v = 0"

definition isArrayLike :: "obj \<Rightarrow> bool" where
  "isArrayLike ps = isLength (js_get (JObj ps) ''length'')"

definition each_visits :: "obj \<Rightarrow> obj" where
  "each_visits ps =
     (if isArrayLike ps
      then map (\<lambda>i. (string_of_nat i, js_get (JObj ps) (string_of_nat i)))
             [0..<length_of (js_get (JObj ps) ''length'')]
      else ps)"

section \<open>The argument builder\<close>

text \<open>
  \<open>_getBinds\<close> (index.js 41-58). The body of the \<open>_.each\<close> callback is \<open>bind_entry\<close>;
  \<open>each_bind\<close> is the loop over what \<open>_.each\<close> visits, with \<open>result\<close> the array being
  pushed to. A visited value that is neither a string nor an object throws, which ends
  the loop.
\<close>

definition bind_entry :: "string \<Rightarrow> jsval \<Rightarrow> error + jsval list" where
  "bind_entry hostPath containerPath =
     (if isString containerPath \<or> isReallyObject containerPath then
        (let mode = (if isReallyObject containerPath then js_get containerPath ''mode'' else JNull);
             containerPath' = (if isReallyObject containerPath then js_get containerPath ''path''
                               else containerPath);
             bindSpec = hostPath @ '':'' @ js_toString containerPath';
             bindSpec' = (if truthy mode then bindSpec @ '':'' @ js_toString mode else bindSpec)
         in Inr [JStr ''-v'', JStr bindSpec'])
      else Inl (InvalidMappingSpec containerPath))"

fun each_bind :: "obj \<Rightarrow> jsval list \<Rightarrow> error + jsval list" where
  "each_bind [] result = Inr result"
| "each_bind ((hostPath, containerPath) # rest) result =
     (case bind_entry hostPath containerPath of
        Inl e \<Rightarrow> Inl e
      | Inr pushed \<Rightarrow> each_bind rest (result @ pushed))"

definition getBinds :: "obj \<Rightarrow> error + jsval list" where
  "getBinds mappings = each_bind (each_visits mappings) []"

text \<open>
  \<open>_parseRunOptions\<close> (index.js 60-67). The two \<open>if\<close>s of the callback are independent:
  the first pushes the flag, the second pushes the value.
\<close>

definition option_entry :: "string \<Rightarrow> jsval \<Rightarrow> jsval list" where
  "option_entry key v =
     (if v \<noteq> JBool False then [JStr (''--'' @ key)] else [])
     @ (if v \<noteq> JNull \<and> v \<noteq> JUndefined \<and> v \<noteq> JBool True then [v] else [])"

fun each_option :: "obj \<Rightarrow> jsval list \<Rightarrow> jsval list" where
  "each_option [] result = result"
| "each_option ((key, v) # rest) result = each_option rest (result @ option_entry key v)"

definition parseRunOptions :: "obj \<Rightarrow> jsval list" where
  "parseRunOptions runOptions = each_option (each_visits runOptions) []"

text \<open>
  \<open>_parseRunCommandArguments\<close> (index.js 138-145): the options are parsed before the
  binds, and the list is \<open>['run'].concat(binds, parsedRunOptions, id, cmd)\<close>.
\<close>

definition parseRunCommandArguments ::
  "jsval \<Rightarrow> jsval \<Rightarrow> obj option \<Rightarrow> obj \<Rightarrow> error + jsval list" where
  "parseRunCommandArguments ident cmd runOptions mappings =
     (let runOptions' = opts runOptions [(''interactive'', JNull)];
          parsedRunOptions = parseRunOptions runOptions'
      in case getBinds mappings of
           Inl e \<Rightarrow> Inl e
         | Inr binds \<Rightarrow>
             Inr ([JStr ''run''] @ binds @ parsedRunOptions @ concat_arg ident @ concat_arg cmd))"

section \<open>The runtime and the host process\<close>

text \<open>
  A logger is either the dummy logger of \<open>_getDummyLogger\<close> (\<open>info\<close> is
  \<open>console.log\<close>, \<open>error\<close> is \<open>console.error\<close>, \<open>debug\<close> does nothing) or one the
  caller supplied, whose three sinks record their calls and do not throw.
\<close>

datatype level = Info | Debug | Err

datatype logger = DummyLogger | CallerLogger

text \<open>
  \<open>runInContainerAsync\<close> registers a \<open>SIGINT\<close> listener on the host process with
  \<open>process.on\<close> (index.js 199-201) and never removes it. The listener is a closure over
  that call's completion callback and options; \<open>listener\<close> holds what it captures: the
  callback, if the caller gave one (callbacks are told apart by a number), the run
  options after their defaults, the logger, and \<open>exitOnEnd\<close>.
\<close>

record listener =
  l_callback :: "nat option"
  l_runOptions :: obj
  l_logger :: logger
  l_exitOnEnd :: bool

text \<open>
  What the library does to its surroundings is recorded in a \<open>world\<close>: the docker command
  lines run to completion through \<open>exec\<close>, oldest first; the command lines launched with
  \<open>nos.execAsync\<close>; what the dummy logger wrote to the console; the calls of a logger the
  caller supplied; the calls of completion callbacks, each with the callback called, the
  container id of its first argument and its second argument; and the \<open>SIGINT\<close> listeners
  registered on the host process, in the order of their registration, which the host
  process keeps from one call of the library to the next.
\<close>

record world =
  history :: "string list"
  spawned :: "string list"
  console :: "(level \<times> string) list"
  logged :: "(level \<times> string) list"
  completions :: "(nat \<times> string option \<times> jsval) list"
  sigint_listeners :: "listener list"

text \<open>
  A call ends in one of three ways: it returns, it throws, or the host process is gone
  (\<open>process.exit()\<close>), which no \<open>catch\<close> intercepts.
\<close>

datatype 'a outcome = Done 'a | Raised error | Exited

type_synonym 'a action = "world \<Rightarrow> 'a outcome \<times> world"

definition ret :: "'a \<Rightarrow> 'a action" where
  "ret x w = (Done x, w)"

definition raise :: "error \<Rightarrow> 'a action" where
  "raise e w = (Raised e, w)"

definition seq :: "'a action \<Rightarrow> ('a \<Rightarrow> 'b action) \<Rightarrow> 'b action" where
  "seq m f w =
     (case m w of
        (Done x, w') \<Rightarrow> f x w'
      | (Raised e, w') \<Rightarrow> (Raised e, w')
      | (Exited, w') \<Rightarrow> (Exited, w'))"

definition try_catch :: "'a action \<Rightarrow> (error \<Rightarrow> 'a action) \<Rightarrow> 'a action" where
  "try_catch body handler w =
     (case body w of
        (Done x, w') \<Rightarrow> (Done x, w')
      | (Raised e, w') \<Rightarrow> handler e w'
      | (Exited, w') \<Rightarrow> (Exited, w'))"

text \<open>
  The surroundings are a parameter. \<open>docker\<close> is the runtime binary behind
  \<open>nos.runProgram('docker', command)\<close>: given the commands run so far and a command, its
  standard output, or the message of the failure that \<open>runProgram\<close> throws (the source
  relies on that throw in \<open>verifyConnection\<close> and \<open>_removeContainer\<close>).
  \<open>clock\<close> is \<open>strftime('%s')\<close>. \<open>stringify\<close> is the builtin \<open>JSON.stringify\<close>.
  \<open>triggers\<close> is what fires while \<open>handler.wait\<close> blocks, in order: the process
  driver reporting the exit of the launched process with a result, or an interrupt signal
  reaching the host process. \<open>wait_throws\<close> says whether \<open>handler.wait\<close>, called with this
  timeout and \<open>throwOnTimeout\<close>, ends by throwing, and what.
\<close>

datatype trigger = ProcessExit jsval | Sigint

datatype timeout = Seconds nat | Infinity

record env =
  docker :: "string list \<Rightarrow> string \<Rightarrow> string + string"
  clock :: string
  stringify :: "jsval \<Rightarrow> string"
  triggers :: "trigger list"
  wait_throws :: "timeout \<Rightarrow> error option"

text \<open>\<open>`${e}`\<close> for a thrown \<open>Error\<close>.\<close>

fun error_toString :: "env \<Rightarrow> error \<Rightarrow> string" where
  "error_toString env (Error m) = ''Error: '' @ m"
| "error_toString env (InvalidMappingSpec v) = ''Error: Invalid mapping spec '' @ stringify env v"

text \<open>\<open>exec\<close> (index.js 23-25), called with a command string.\<close>

definition exec :: "env \<Rightarrow> string \<Rightarrow> string action" where
  "exec env command w =
     (case docker env (history w) command of
        Inl m \<Rightarrow> (Raised (Error m), w\<lparr>history := history w @ [command]\<rparr>)
      | Inr out \<Rightarrow> (Done out, w\<lparr>history := history w @ [command]\<rparr>))"

text \<open>
  The option bag that \<open>runInContainer\<close>, \<open>runInContainerAsync\<close> and \<open>_removeContainer\<close>
  take. Every key is optional; a function reads the keys it knows and \<open>_.opts\<close> fills in
  its defaults. \<open>mappings\<close> and \<open>runOptions\<close> are key-value objects, as the source
  documents them; the default \<open>[]\<close> of \<open>mappings\<close> is the object with no property.
\<close>

record options =
  mappings :: "obj option"
  runOptions :: "obj option"
  logger :: "logger option"
  timeout :: "timeout option"
  exitOnEnd :: "bool option"
  force :: "bool option"

definition default_to :: "'a \<Rightarrow> 'a option \<Rightarrow> 'a" where
  "default_to d x = (case x of None \<Rightarrow> d | Some v \<Rightarrow> v)"

fun log_to :: "logger \<Rightarrow> level \<Rightarrow> string \<Rightarrow> unit action" where
  "log_to DummyLogger Debug msg w = (Done (), w)"
| "log_to DummyLogger lv msg w = (Done (), w\<lparr>console := console w @ [(lv, msg)]\<rparr>)"
| "log_to CallerLogger lv msg w = (Done (), w\<lparr>logged := logged w @ [(lv, msg)]\<rparr>)"

section \<open>Images and containers\<close>

text \<open>
  \<open>String.prototype.split\<close> and \<open>String.prototype.replace\<close> at the line feed
  (character \<open>0x0A\<close>), as the source calls them: \<open>split\<close> gives the lines, and
  \<open>replace\<close> with a string pattern replaces the first occurrence only.
\<close>

fun split_nl :: "string \<Rightarrow> string list" where
  "split_nl [] = [[]]"
| "split_nl (c # cs) =
     (if c = CHR 0x0A then [] # split_nl cs
      else (case split_nl cs of [] \<Rightarrow> [[c]] | l # ls \<Rightarrow> (c # l) # ls))"

fun remove_first_nl :: "string \<Rightarrow> string" where
  "remove_first_nl [] = []"
| "remove_first_nl (c # cs) = (if c = CHR 0x0A then cs else c # remove_first_nl cs)"

text \<open>
  \<open>_.isEmpty\<close> on what \<open>getImageId\<close> handles: \<open>undefined\<close> (index 0 of an empty array)
  and \<open>null\<close> are empty, a string is empty when it has no characters.
\<close>

definition isEmpty :: "string option \<Rightarrow> bool" where
  "isEmpty x = (case x of None \<Rightarrow> True | Some s \<Rightarrow> s = [])"

text \<open>
  \<open>getImageId\<close> (index.js 119-122); \<open>null\<close> is \<open>None\<close>. \<open>images_command\<close> is the
  template literal \<open>`images -q ${imageName}`\<close>.
\<close>

definition images_command :: "string \<Rightarrow> string" where
  "images_command imageName = ''images -q '' @ imageName"

definition getImageId :: "env \<Rightarrow> string \<Rightarrow> string option action" where
  "getImageId env imageName =
     seq (exec env (images_command imageName))
       (\<lambda>out. let res = (case split_nl out of [] \<Rightarrow> None | l # ls \<Rightarrow> Some l)
              in ret (if \<not> isEmpty res then res else None))"

text \<open>\<open>imageExists\<close> (index.js 254-256).\<close>

definition imageExists :: "env \<Rightarrow> string \<Rightarrow> bool action" where
  "imageExists env imageName = seq (getImageId env imageName) (\<lambda>i. ret (\<not> isEmpty i))"

text \<open>
  \<open>getContainerId\<close> (index.js 133-136). \<open>ps_command\<close> is the template literal
  \<open>`ps -aq --filter "name=${name}"`\<close>; the character \<open>0x22\<close> is the double quote.
\<close>

definition ps_command :: "string \<Rightarrow> string" where
  "ps_command name = ''ps -aq --filter '' @ [CHR 0x22] @ ''name='' @ name @ [CHR 0x22]"

definition getContainerId :: "env \<Rightarrow> string \<Rightarrow> string option action" where
  "getContainerId env name =
     seq (exec env (ps_command name))
       (\<lambda>out. let res = remove_first_nl out
              in ret (if \<not> isEmpty (Some res) then Some res else None))"

text \<open>
  \<open>_removeContainer\<close> (index.js 27-39). \<open>rm_command\<close> is the template literal
  \<open>`rm ${options.force ? '-f' : ''} ${containerId}`\<close>: the identifier is interpolated as
  it is, so \<open>null\<close> gives the text \<open>null\<close>. The callback is called after the
  \<open>try\<close>/\<open>catch\<close>, outside it.
\<close>

definition rm_command :: "bool \<Rightarrow> string option \<Rightarrow> string" where
  "rm_command force' containerId =
     ''rm '' @ (if force' then ''-f'' else []) @ '' ''
     @ (case containerId of None \<Rightarrow> ''null'' | Some c \<Rightarrow> c)"

definition removeContainer ::
  "env \<Rightarrow> string option \<Rightarrow> unit action option \<Rightarrow> options \<Rightarrow> unit action" where
  "removeContainer env containerId callback opt =
     (let force' = default_to False (force opt);
          logger' = default_to DummyLogger (logger opt)
      in seq (try_catch
                (seq (exec env (rm_command force' containerId))
                   (\<lambda>out. log_to logger' Debug ''Temporary container successfully deleted''))
                (\<lambda>e. log_to logger' Err (''Failed to delete container '' @ error_toString env e)))
           (\<lambda>u. case callback of None \<Rightarrow> ret () | Some cb \<Rightarrow> cb))"

section \<open>Running a command in a container\<close>

text \<open>
  \<open>runInContainer\<close> (index.js 228-232). An argument list that cannot be built throws
  before \<open>exec\<close> is reached.
\<close>

definition runInContainer :: "env \<Rightarrow> jsval \<Rightarrow> jsval \<Rightarrow> options \<Rightarrow> string action" where
  "runInContainer env ident cmd opt =
     (let mappings' = default_to [] (mappings opt);
          runOptions' = default_to [] (runOptions opt)
      in case parseRunCommandArguments ident cmd (Some runOptions') mappings' of
           Inl e \<Rightarrow> raise e
         | Inr args \<Rightarrow> exec env (js_join '' '' args))"

text \<open>
  \<open>runInContainerAsync\<close> (index.js 169-211). \<open>callback\<close> is the caller's completion
  callback, if any; calling it records which callback it is, the \<open>id\<close> of its first
  argument and its second argument, and it does not throw. The handlers \<open>onStdout\<close> and
  \<open>onStderr\<close>, which pass the lines the process prints to the logger, are left out: they
  touch nothing that the termination sequence reads.
\<close>

definition call_callback :: "nat \<Rightarrow> string option \<Rightarrow> jsval \<Rightarrow> unit action" where
  "call_callback callback containerId res w =
     (Done (), w\<lparr>completions := completions w @ [(callback, containerId, res)]\<rparr>)"

definition process_exit :: "unit action" where
  "process_exit w = (Exited, w)"

text \<open>
  The closure \<open>onExit\<close> (index.js 192-198), over what the call captured. The name is
  interpolated into the lookup command.
\<close>

definition onExit :: "env \<Rightarrow> listener \<Rightarrow> jsval \<Rightarrow> unit action" where
  "onExit env this res =
     seq (getContainerId env (js_toString (js_get (JObj (l_runOptions this)) ''name'')))
       (\<lambda>containerId.
          seq (case l_callback this of
                 Some callback \<Rightarrow> call_callback callback containerId res
               | None \<Rightarrow> ret ())
            (\<lambda>u. removeContainer env containerId
                   (Some (if l_exitOnEnd this then process_exit else ret ()))
                   \<lparr>mappings = None, runOptions = None, logger = Some (l_logger this),
                    timeout = None, exitOnEnd = None, force = Some True\<rparr>))"

text \<open>\<open>process.on('SIGINT', ...)\<close> (index.js 199-201) adds the listener after the others.\<close>

definition register_sigint :: "listener \<Rightarrow> unit action" where
  "register_sigint this w = (Done (), w\<lparr>sigint_listeners := sigint_listeners w @ [this]\<rparr>)"

definition execAsync :: "string \<Rightarrow> unit action" where
  "execAsync commandLine w = (Done (), w\<lparr>spawned := spawned w @ [commandLine]\<rparr>)"

text \<open>
  What fires while \<open>handler.wait\<close> blocks. The driver reports the exit of the process to
  the \<open>onExit\<close> that this call gave to \<open>nos.execAsync\<close>, with its result. An interrupt
  is emitted to every \<open>SIGINT\<close> listener registered on the host process, in the order of
  registration: those that earlier calls left behind, and this call's; each calls its
  own \<open>onExit\<close> with \<open>{exitCode: 127}\<close>. Listeners run from the event loop, so an
  exception that escapes one is not thrown by \<open>handler.wait\<close> and is not caught by the
  \<open>catch\<close> around it: it ends the run, and so does \<open>process.exit()\<close>.
\<close>

fun trigger_result :: "trigger \<Rightarrow> jsval" where
  "trigger_result (ProcessExit res) = res"
| "trigger_result Sigint = JObj [(''exitCode'', JNum 127)]"

fun targets :: "listener \<Rightarrow> listener list \<Rightarrow> trigger \<Rightarrow> listener list" where
  "targets this registered (ProcessExit res) = [this]"
| "targets this registered Sigint = registered"

fun emit :: "env \<Rightarrow> listener list \<Rightarrow> jsval \<Rightarrow> unit action" where
  "emit env [] res = ret ()"
| "emit env (l # ls) res = seq (onExit env l res) (\<lambda>u. emit env ls res)"

definition fire :: "env \<Rightarrow> listener \<Rightarrow> trigger \<Rightarrow> unit action" where
  "fire env this t w = emit env (targets this (sigint_listeners w) t) (trigger_result t) w"

fun deliver :: "env \<Rightarrow> listener \<Rightarrow> trigger list \<Rightarrow> unit action" where
  "deliver env this [] = ret ()"
| "deliver env this (t # ts) = seq (fire env this t) (\<lambda>u. deliver env this ts)"

text \<open>The \<open>catch\<close> block (index.js 206-210): it uses the dummy logger and no callback.\<close>

definition on_wait_failure :: "env \<Rightarrow> obj \<Rightarrow> error \<Rightarrow> unit action" where
  "on_wait_failure env runOptions' e =
     seq (getContainerId env (js_toString (js_get (JObj runOptions') ''name'')))
       (\<lambda>containerId.
          seq (removeContainer env containerId None
                 \<lparr>mappings = None, runOptions = None, logger = None,
                  timeout = None, exitOnEnd = None, force = Some True\<rparr>)
            (\<lambda>u. raise e))"

definition runInContainerAsync ::
  "env \<Rightarrow> jsval \<Rightarrow> jsval \<Rightarrow> nat option \<Rightarrow> options \<Rightarrow> unit action" where
  "runInContainerAsync env ident cmd callback opt =
     (let mappings' = default_to [] (mappings opt);
          logger' = default_to DummyLogger (logger opt);
          timeout' = default_to (Seconds 10800) (timeout opt);
          exitOnEnd' = default_to False (exitOnEnd opt);
          runOptions' = opts (Some (default_to [] (runOptions opt))) [(''name'', JStr (clock env))];
          this = \<lparr>l_callback = callback, l_runOptions = runOptions', l_logger = logger',
                  l_exitOnEnd = exitOnEnd'\<rparr>
      in seq (register_sigint this)
           (\<lambda>u. case parseRunCommandArguments ident cmd (Some runOptions') mappings' of
                  Inl e \<Rightarrow> raise e
                | Inr args \<Rightarrow>
                    seq (execAsync (''docker '' @ js_join '' '' args))
                      (\<lambda>u. seq (deliver env this (triggers env))
                             (\<lambda>u. try_catch
                                      (case wait_throws env timeout' of
                                         None \<Rightarrow> ret ()
                                       | Some e \<Rightarrow> raise e)
                                      (on_wait_failure env runOptions')))))"

section \<open>Sample surroundings\<close>

text \<open>
  Concrete worlds, runtimes and option bags, for evaluating the functions above. None of
  the runs renders a mapping error, so \<open>stringify\<close> is filled with \<open>String\<close>.
\<close>

definition world0 :: world where
  "world0 = \<lparr>history = [], spawned = [], console = [], logged = [], completions = [],
             sigint_listeners = []\<rparr>"

definition no_options :: options where
  "no_options = \<lparr>mappings = None, runOptions = None, logger = None, timeout = None,
                 exitOnEnd = None, force = None\<rparr>"

text \<open>
  A runtime that cannot be reached: every docker command run through \<open>exec\<close> fails,
  the launched process reports nothing, and the wait runs into its timeout.
\<close>

definition runtime_down :: env where
  "runtime_down =
     \<lparr>docker = (\<lambda>h c. Inl ''Cannot connect to the Docker daemon''),
      clock = ''1700000000'',
      stringify = js_toString,
      triggers = [],
      wait_throws = (\<lambda>t. Some (Error ''Exceeded timeout''))\<rparr>"

text \<open>
  A runtime with one container, \<open>abc123\<close>, named after the clock, until it is removed;
  the host is interrupted while it waits, and the launched process exits after that.
\<close>

definition runtime_interrupted :: env where
  "runtime_interrupted =
     \<lparr>docker = (\<lambda>h c.
         if c = ps_command ''1700000000''
         then (if ''rm -f abc123'' \<in> set h then Inr [] else Inr (''abc123'' @ [CHR 0x0A]))
         else if c = ''rm -f abc123'' then Inr (''abc123'' @ [CHR 0x0A])
         else Inl ''No such container''),
      clock = ''1700000000'',
      stringify = js_toString,
      triggers = [Sigint, ProcessExit (JObj [(''code'', JNum 0)])],
      wait_throws = (\<lambda>t. None)\<rparr>"

text \<open>
  The stand-in for the docker binary that the repository's tests put on the path, which
  prints its arguments and succeeds; nothing fires while the host waits.
\<close>

definition runtime_echo :: env where
  "runtime_echo =
     \<lparr>docker = (\<lambda>h c. Inr c),
      clock = ''1700000000'',
      stringify = js_toString,
      triggers = [],
      wait_throws = (\<lambda>t. None)\<rparr>"

text \<open>The listener that an earlier call with callback \<open>1\<close> and no options left behind.\<close>

definition earlier_listener :: listener where
  "earlier_listener =
     \<lparr>l_callback = Some 1, l_runOptions = [(''name'', JStr ''1600000000'')],
      l_logger = DummyLogger, l_exitOnEnd = False\<rparr>"

section \<open>Properties of the argument builder\<close>

subsection \<open>The loops, one entry at a time\<close>

lemma each_option_acc: "each_option ps acc = acc @ each_option ps []"
proof (induction ps arbitrary: acc)
  case Nil
  then show ?case by simp
next
  case (Cons p ps)
  obtain k v where p: "p = (k, v)" by (cases p)
  have "each_option (p # ps) acc = (acc @ option_entry k v) @ each_option ps []"
    using Cons.IH [of "acc @ option_entry k v"] by (simp add: p)
  moreover have "each_option (p # ps) [] = option_entry k v @ each_option ps []"
    using Cons.IH [of "option_entry k v"] by (simp add: p)
  ultimately show ?case by simp
qed

lemma each_option_Cons:
  "each_option ((k, v) # ps) [] = option_entry k v @ each_option ps []"
  using each_option_acc [of ps "option_entry k v"] by simp

text \<open>An object that is not array-like is visited property by property.\<close>

lemma each_visits_plain:
  assumes "\<not> isArrayLike ps"
  shows "each_visits ps = ps"
  using assms by (simp add: each_visits_def)

lemma each_bind_acc:
  "each_bind ms acc = (case each_bind ms [] of Inl e \<Rightarrow> Inl e | Inr fs \<Rightarrow> Inr (acc @ fs))"
proof (induction ms arbitrary: acc)
  case Nil
  then show ?case by simp
next
  case (Cons p ms)
  obtain h v where p: "p = (h, v)" by (cases p)
  show ?case
  proof (cases "bind_entry h v")
    case (Inl e)
    then show ?thesis by (simp add: p)
  next
    case (Inr pushed)
    have a: "each_bind (p # ms) acc = each_bind ms (acc @ pushed)"
      by (simp add: p Inr)
    have b: "each_bind (p # ms) [] = each_bind ms pushed"
      by (simp add: p Inr)
    show ?thesis
      unfolding a b
      by (subst Cons.IH [of "acc @ pushed"], subst Cons.IH [of pushed])
         (simp split: sum.splits)
  qed
qed

lemma each_bind_Cons:
  "each_bind ((h, v) # ms) [] =
     (case bind_entry h v of
        Inl e \<Rightarrow> Inl e
      | Inr pushed \<Rightarrow>
          (case each_bind ms [] of Inl e \<Rightarrow> Inl e | Inr fs \<Rightarrow> Inr (pushed @ fs)))"
proof (cases "bind_entry h v")
  case (Inl e)
  then show ?thesis by simp
next
  case (Inr pushed)
  then show ?thesis
    using each_bind_acc [of ms pushed] by simp
qed




lemma bind_entry_invalid:
  assumes "\<not> isString v" and "\<not> isReallyObject v"
  shows "bind_entry h v = Inl (InvalidMappingSpec v)"
  using assms by (simp add: bind_entry_def)

lemma bind_entry_Inl:
  assumes "bind_entry h v = Inl e"
  shows "e = InvalidMappingSpec v \<and> \<not> isString v \<and> \<not> isReallyObject v"
  using assms by (auto simp: bind_entry_def Let_def split: if_splits)


lemma each_bind_invalid:
  assumes "(h, v) \<in> set ms" and "\<not> isString v" and "\<not> isReallyObject v"
  shows "\<exists>v0. \<not> isString v0 \<and> \<not> isReallyObject v0 \<and> each_bind ms [] = Inl (InvalidMappingSpec v0)"
  using assms(1)
proof (induction ms)
  case Nil
  then show ?case by simp
next
  case (Cons p ms)
  obtain h' v' where p: "p = (h', v')" by (cases p)
  show ?case
  proof (cases "bind_entry h' v'")
    case (Inl e)
    with bind_entry_Inl [OF Inl] show ?thesis
      by (auto simp: p each_bind_Cons simp del: each_bind.simps)
  next
    case (Inr pushed)
    then have "v' \<noteq> v"
      using bind_entry_invalid [OF assms(2,3), of h'] by auto
    with Cons.prems have "(h, v) \<in> set ms" by (simp add: p)
    from Cons.IH [OF this] show ?thesis
      by (auto simp: p each_bind_Cons Inr simp del: each_bind.simps)
  qed
qed

lemma option_entry_cases:
  "option_entry k (JBool True) = [JStr (''--'' @ k)]"
  "option_entry k JNull = [JStr (''--'' @ k)]"
  "option_entry k JUndefined = [JStr (''--'' @ k)]"
  "option_entry k (JBool False) = [JBool False]"
  "option_entry k (JStr s) = [JStr (''--'' @ k), JStr s]"
  "option_entry k (JNum n) = [JStr (''--'' @ k), JNum n]"
  by (simp_all add: option_entry_def)

lemma option_entry_flag:
  assumes "v \<noteq> JBool False"
  shows "JStr (''--'' @ k) \<in> set (option_entry k v)"
  using assms by (simp add: option_entry_def)

lemma each_option_flag:
  assumes "(k, v) \<in> set ps" and "v \<noteq> JBool False"
  shows "JStr (''--'' @ k) \<in> set (each_option ps [])"
  using assms(1)
proof (induction ps)
  case Nil
  then show ?case by simp
next
  case (Cons p ps)
  obtain k' v' where p: "p = (k', v')" by (cases p)
  from Cons.prems consider "p = (k, v)" | "(k, v) \<in> set ps" by auto
  then show ?case
  proof cases
    case 1
    then have "k' = k" and "v' = v" by (simp_all add: p)
    then show ?thesis
      using option_entry_flag [OF assms(2), of k] by (simp add: p each_option_Cons del: each_option.simps)
  next
    case 2
    from Cons.IH [OF this] show ?thesis by (simp add: p each_option_Cons del: each_option.simps)
  qed
qed

lemma opts_mem:
  assumes "(k, v) \<in> set given"
  shows "(k, if v = JUndefined
             then (case map_of defaults k of Some d \<Rightarrow> d | None \<Rightarrow> v)
             else v) \<in> set (opts (Some given) defaults)"
proof -
  let ?f = "\<lambda>(k, v). (k, if v = JUndefined
                             then (case map_of defaults k of Some d \<Rightarrow> d | None \<Rightarrow> v)
                             else v)"
  from assms have "?f (k, v) \<in> ?f ` set given" by (rule imageI)
  then show ?thesis by (simp add: opts_def)
qed

lemma opts_keeps_flag:
  assumes "js_get (JObj given) key \<noteq> JBool False" and "d \<noteq> JBool False"
  shows "\<exists>v. (key, v) \<in> set (opts (Some given) [(key, d)]) \<and> v \<noteq> JBool False"
proof (cases "map_of given key")
  case None
  then have "key \<notin> fst ` set given" by (simp add: map_of_eq_None_iff)
  then have "(key, d) \<in> set (opts (Some given) [(key, d)])"
    by (simp add: opts_def)
  with assms(2) show ?thesis by blast
next
  case (Some v)
  then have mem: "(key, v) \<in> set given" by (rule map_of_SomeD)
  from Some assms(1) have v: "v \<noteq> JBool False" by simp
  let ?v = "if v = JUndefined then d else v"
  have "(key, ?v) \<in> set (opts (Some given) [(key, d)])"
    using opts_mem [OF mem, of "[(key, d)]"] by (cases "v = JUndefined") simp_all
  moreover from v assms(2) have "?v \<noteq> JBool False" by simp
  ultimately show ?thesis by blast
qed

lemma opts_other_key:
  assumes "key \<noteq> k2"
  shows "js_get (JObj (opts (Some given) [(k2, d)])) key = js_get (JObj given) key"
proof -
  let ?f = "\<lambda>(k, v). (k, if v = JUndefined
                             then (case map_of [(k2, d)] k of Some d \<Rightarrow> d | None \<Rightarrow> v)
                             else v)"
  have kept: "map_of (map ?f given) key = map_of given key"
    using assms by (induction given) auto
  have added: "map_of (filter (\<lambda>(k, d). k \<notin> fst ` set given) [(k2, d)]) key = None"
    using assms by simp
  have "map_of (opts (Some given) [(k2, d)]) key = map_of given key"
    unfolding opts_def Let_def option.case map_of_append map_add_def kept added
    by (simp split: option.splits)
  then show ?thesis by simp
qed

lemma parseRunCommandArguments_Inr:
  assumes "parseRunCommandArguments ident cmd ro ms = Inr args"
  shows "\<exists>binds. getBinds ms = Inr binds \<and>
           args = JStr ''run'' # binds @ parseRunOptions (opts ro [(''interactive'', JNull)])
                  @ concat_arg ident @ concat_arg cmd"
  using assms by (auto simp: parseRunCommandArguments_def Let_def split: sum.splits)

lemma isArrayLike_opts:
  assumes "k \<noteq> ''length''"
  shows "isArrayLike (opts (Some given) [(k, d)]) = isArrayLike given"
  using opts_other_key [of "''length''" k given d] assms
  by (simp add: isArrayLike_def del: js_get.simps)

lemma parseRunCommandArguments_interactive:
  assumes "\<not> isArrayLike given"
    and "js_get (JObj given) ''interactive'' \<noteq> JBool False"
    and "parseRunCommandArguments ident cmd (Some given) ms = Inr args"
  shows "JStr ''--interactive'' \<in> set args"
proof -
  let ?ro = "opts (Some given) [(''interactive'', JNull)]"
  from opts_keeps_flag [OF assms(2), of JNull] obtain v where
    "(''interactive'', v) \<in> set ?ro" and "v \<noteq> JBool False"
    by auto
  from each_option_flag [OF this]
  have "JStr ''--interactive'' \<in> set (each_option ?ro [])"
    by simp
  moreover have "\<not> isArrayLike ?ro"
    using assms(1) by (simp add: isArrayLike_opts)
  ultimately have "JStr ''--interactive'' \<in> set (parseRunOptions ?ro)"
    by (simp add: parseRunOptions_def each_visits_plain)
  with parseRunCommandArguments_Inr [OF assms(3)] show ?thesis by auto
qed

subsection \<open>Run options\<close>

text \<open>
  Claim C3. For every run-option map, a key whose value is \<open>true\<close> or not a boolean
  yields \<open>--key\<close>, followed by the value only when it is not a boolean, and a key whose
  value is \<open>false\<close> contributes nothing to the argument list. The last part fails on the
  code: the first \<open>if\<close> of \<open>_parseRunOptions\<close> leaves the flag out, but the second one
  excludes only \<open>null\<close>, \<open>undefined\<close> and \<open>true\<close>, so the value \<open>false\<close> itself is pushed.
  The theorem evaluates the function at \<open>{interactive: false}\<close>: the result is the
  one-element list holding \<open>false\<close>, which \<open>join\<close> renders as the argument \<open>false\<close>.
\<close>

theorem false_option_pushes_value:
  "parseRunOptions [(''interactive'', JBool False)] = [JBool False]"
  by (simp add: parseRunOptions_def each_visits_def isArrayLike_def option_entry_def)

subsection \<open>Volume binds\<close>





subsection \<open>The whole argument list\<close>

text \<open>
  The argument list for \<open>runInContainer('centos', 'true', {mappings: {'/tmp/a': '/b'}})\<close>
  is not \<open>run -v /tmp/a:/b centos true\<close>.
\<close>

theorem centos_without_interactive_counterexample:
  "parseRunCommandArguments (JStr ''centos'') (JStr ''true'') (Some [])
     [(''/tmp/a'', JStr ''/b'')]
   \<noteq> Inr [JStr ''run'', JStr ''-v'', JStr ''/tmp/a:/b'', JStr ''centos'', JStr ''true'']"
  by (simp add: parseRunCommandArguments_def opts_def parseRunOptions_def option_entry_def
      getBinds_def bind_entry_def each_visits_def isArrayLike_def)

text \<open>
  Claim C5, amended. \<open>runInContainer('centos', 'true', {mappings: {'/tmp/a': '/b'}})\<close>
  executes the command line \<open>run -v /tmp/a:/b --interactive centos true\<close>: the default run
  option \<open>interactive\<close> adds its flag. In general the argument list is \<open>run\<close>, then the
  volume-bind flags, then the run options (with that default), then the image
  reference, then the command; it exists only when the binds can be built.
\<close>

theorem runInContainer_centos:
  "runInContainer env (JStr ''centos'') (JStr ''true'')
     \<lparr>mappings = Some [(''/tmp/a'', JStr ''/b'')], runOptions = None, logger = None,
      timeout = None, exitOnEnd = None, force = None\<rparr> w
   = exec env ''run -v /tmp/a:/b --interactive centos true'' w
   \<and> parseRunCommandArguments ident cmd ro ms =
       (case getBinds ms of
          Inl e \<Rightarrow> Inl e
        | Inr binds \<Rightarrow>
            Inr (JStr ''run'' # binds @ parseRunOptions (opts ro [(''interactive'', JNull)])
                 @ concat_arg ident @ concat_arg cmd))"
proof
  show "runInContainer env (JStr ''centos'') (JStr ''true'')
     \<lparr>mappings = Some [(''/tmp/a'', JStr ''/b'')], runOptions = None, logger = None,
      timeout = None, exitOnEnd = None, force = None\<rparr> w
   = exec env ''run -v /tmp/a:/b --interactive centos true'' w"
    by (simp add: runInContainer_def default_to_def parseRunCommandArguments_def opts_def
        parseRunOptions_def option_entry_def getBinds_def bind_entry_def js_join_def
        each_visits_def isArrayLike_def)
  show "parseRunCommandArguments ident cmd ro ms =
       (case getBinds ms of
          Inl e \<Rightarrow> Inl e
        | Inr binds \<Rightarrow>
            Inr (JStr ''run'' # binds @ parseRunOptions (opts ro [(''interactive'', JNull)])
                 @ concat_arg ident @ concat_arg cmd))"
    by (simp add: parseRunCommandArguments_def Let_def split: sum.splits)
qed

section \<open>Properties of the runtime wrappers\<close>

subsection \<open>Actions, by the answer of the runtime\<close>

lemma exec_Inl:
  assumes "docker env (history w) c = Inl m"
  shows "exec env c w = (Raised (Error m), w\<lparr>history := history w @ [c]\<rparr>)"
  using assms by (simp add: exec_def)

lemma exec_Inr:
  assumes "docker env (history w) c = Inr out"
  shows "exec env c w = (Done out, w\<lparr>history := history w @ [c]\<rparr>)"
  using assms by (simp add: exec_def)

lemma log_to_Done: "fst (log_to lg lv msg w) = Done ()"
  by (cases lg; cases lv) simp_all

lemma log_to_eq: "log_to lg lv msg w = (Done (), snd (log_to lg lv msg w))"
  using log_to_Done [of lg lv msg w] by (cases "log_to lg lv msg w") simp

lemma log_to_frame:
  "history (snd (log_to lg lv msg w)) = history w"
  "spawned (snd (log_to lg lv msg w)) = spawned w"
  "completions (snd (log_to lg lv msg w)) = completions w"
  "sigint_listeners (snd (log_to lg lv msg w)) = sigint_listeners w"
  by (cases lg; cases lv; simp)+

text \<open>What getContainerId computes from the output of the lookup.\<close>

lemma getContainerId_Inr:
  assumes "docker env (history w) (ps_command n) = Inr out"
  shows "getContainerId env n w =
           (Done (if remove_first_nl out = [] then None else Some (remove_first_nl out)),
            w\<lparr>history := history w @ [ps_command n]\<rparr>)"
  by (simp add: getContainerId_def seq_def exec_Inr [OF assms] Let_def isEmpty_def ret_def)

text \<open>The removal, by the answer of the runtime.\<close>

lemma removeContainer_Inl:
  assumes "docker env (history w) (rm_command (default_to False (force opt)) cid) = Inl m"
  shows "removeContainer env cid cb opt w =
           (case cb of None \<Rightarrow> ret () | Some c \<Rightarrow> c)
             (snd (log_to (default_to DummyLogger (logger opt)) Err
                     (''Failed to delete container Error: '' @ m)
                     (w\<lparr>history := history w @ [rm_command (default_to False (force opt)) cid]\<rparr>)))"
proof -
  let ?c = "rm_command (default_to False (force opt)) cid"
  let ?lg = "default_to DummyLogger (logger opt)"
  let ?w1 = "w\<lparr>history := history w @ [?c]\<rparr>"
  let ?msg = "''Failed to delete container Error: '' @ m"
  have body: "seq (exec env ?c) (\<lambda>out. log_to ?lg Debug ''Temporary container successfully deleted'') w
                = (Raised (Error m), ?w1)"
    by (simp add: seq_def exec_Inl [OF assms])
  have "try_catch
          (seq (exec env ?c) (\<lambda>out. log_to ?lg Debug ''Temporary container successfully deleted''))
          (\<lambda>e. log_to ?lg Err (''Failed to delete container '' @ error_toString env e)) w
        = log_to ?lg Err ?msg ?w1"
    by (simp add: try_catch_def body)
  also have "\<dots> = (Done (), snd (log_to ?lg Err ?msg ?w1))"
    by (rule log_to_eq)
  finally show ?thesis
    by (simp add: removeContainer_def Let_def seq_def)
qed

lemma removeContainer_Inr:
  assumes "docker env (history w) (rm_command (default_to False (force opt)) cid) = Inr out"
  shows "removeContainer env cid cb opt w =
           (case cb of None \<Rightarrow> ret () | Some c \<Rightarrow> c)
             (snd (log_to (default_to DummyLogger (logger opt)) Debug
                     ''Temporary container successfully deleted''
                     (w\<lparr>history := history w @ [rm_command (default_to False (force opt)) cid]\<rparr>)))"
proof -
  let ?c = "rm_command (default_to False (force opt)) cid"
  let ?lg = "default_to DummyLogger (logger opt)"
  let ?w1 = "w\<lparr>history := history w @ [?c]\<rparr>"
  let ?msg = "''Temporary container successfully deleted''"
  have body: "seq (exec env ?c) (\<lambda>out. log_to ?lg Debug ?msg) w = log_to ?lg Debug ?msg ?w1"
    by (simp add: seq_def exec_Inr [OF assms])
  have "try_catch (seq (exec env ?c) (\<lambda>out. log_to ?lg Debug ?msg))
          (\<lambda>e. log_to ?lg Err (''Failed to delete container '' @ error_toString env e)) w
        = (Done (), snd (log_to ?lg Debug ?msg ?w1))"
    unfolding try_catch_def body by (subst log_to_eq) simp
  then show ?thesis
    by (simp add: removeContainer_def Let_def seq_def)
qed

text \<open>Whatever the runtime answers, the removal hands over to the callback.\<close>

lemma removeContainer_cases:
  obtains w' where
    "removeContainer env cid cb opt w = (case cb of None \<Rightarrow> ret () | Some c \<Rightarrow> c) w'"
    and "history w' = history w @ [rm_command (default_to False (force opt)) cid]"
    and "spawned w' = spawned w"
    and "completions w' = completions w"
    and "sigint_listeners w' = sigint_listeners w"
proof (cases "docker env (history w) (rm_command (default_to False (force opt)) cid)")
  case (Inl m)
  show ?thesis
    by (rule that [OF removeContainer_Inl [OF Inl]]) (simp_all add: log_to_frame)
next
  case (Inr out)
  show ?thesis
    by (rule that [OF removeContainer_Inr [OF Inr]]) (simp_all add: log_to_frame)
qed

subsection \<open>What an action leaves alone\<close>

lemma seq_frame:
  assumes "\<And>w. f (snd (m w)) = f w" and "\<And>x w. f (snd (g x w)) = f w"
  shows "f (snd (seq m g w)) = f w"
proof (cases "m w")
  case (Pair r w')
  from assms(1) [of w] Pair have w': "f w' = f w" by simp
  show ?thesis
  proof (cases r)
    case (Done x)
    with Pair have "seq m g w = g x w'" by (simp add: seq_def)
    with assms(2) [of x w'] w' show ?thesis by simp
  next
    case (Raised e)
    with Pair w' show ?thesis by (simp add: seq_def)
  next
    case Exited
    with Pair w' show ?thesis by (simp add: seq_def)
  qed
qed

lemma try_catch_frame:
  assumes "\<And>w. f (snd (m w)) = f w" and "\<And>e w. f (snd (h e w)) = f w"
  shows "f (snd (try_catch m h w)) = f w"
proof (cases "m w")
  case (Pair r w')
  from assms(1) [of w] Pair have w': "f w' = f w" by simp
  show ?thesis
  proof (cases r)
    case (Done x)
    with Pair w' show ?thesis by (simp add: try_catch_def)
  next
    case (Raised e)
    with Pair have "try_catch m h w = h e w'" by (simp add: try_catch_def)
    with assms(2) [of e w'] w' show ?thesis by simp
  next
    case Exited
    with Pair w' show ?thesis by (simp add: try_catch_def)
  qed
qed

text \<open>
  A docker command writes the history and a logger writes the console or the record of
  the caller's logger. What depends on neither is left as it was; that covers the
  commands launched, the callbacks called and the listeners registered.
\<close>

lemma exec_frame:
  assumes "\<And>w h c l. f (w\<lparr>history := h, console := c, logged := l\<rparr>) = f w"
  shows "f (snd (exec env c w)) = f w"
proof -
  have "f (w\<lparr>history := h\<rparr>) = f w" for h
    using assms [where w = w and h = h and c = "console w" and l = "logged w"] by simp
  then show ?thesis by (simp add: exec_def split: sum.splits)
qed

lemma log_to_frame_any:
  assumes "\<And>w h c l. f (w\<lparr>history := h, console := c, logged := l\<rparr>) = f w"
  shows "f (snd (log_to lg lv msg w)) = f w"
proof -
  have "f (w\<lparr>console := c\<rparr>) = f w" for c
    using assms [where w = w and h = "history w" and c = c and l = "logged w"] by simp
  moreover have "f (w\<lparr>logged := l\<rparr>) = f w" for l
    using assms [where w = w and h = "history w" and c = "console w" and l = l] by simp
  ultimately show ?thesis by (cases lg; cases lv) simp_all
qed

lemma getContainerId_frame:
  assumes "\<And>w h c l. f (w\<lparr>history := h, console := c, logged := l\<rparr>) = f w"
  shows "f (snd (getContainerId env n w)) = f w"
  unfolding getContainerId_def
  by (rule seq_frame) (simp_all add: exec_frame [of f, OF assms] Let_def ret_def)

lemma removeContainer_frame:
  assumes "\<And>w h c l. f (w\<lparr>history := h, console := c, logged := l\<rparr>) = f w"
    and "\<And>c w. cb = Some c \<Longrightarrow> f (snd (c w)) = f w"
  shows "f (snd (removeContainer env cid cb opt w)) = f w"
  unfolding removeContainer_def Let_def
  apply (rule seq_frame)
   apply (rule try_catch_frame)
    apply (rule seq_frame)
     apply (rule exec_frame [of f, OF assms(1)])
    apply (rule log_to_frame_any [of f, OF assms(1)])
   apply (rule log_to_frame_any [of f, OF assms(1)])
  using assms(2) apply (cases cb)
   apply (simp_all add: ret_def)
  done

lemma on_wait_failure_frame:
  assumes "\<And>w h c l. f (w\<lparr>history := h, console := c, logged := l\<rparr>) = f w"
  shows "f (snd (on_wait_failure env ro e w)) = f w"
  unfolding on_wait_failure_def
  apply (rule seq_frame)
   apply (rule getContainerId_frame [of f, OF assms])
  apply (rule seq_frame)
   apply (rule removeContainer_frame [of f, OF assms])
   apply simp
  apply (simp add: raise_def)
  done

lemma wait_end_frame:
  assumes "\<And>w h c l. f (w\<lparr>history := h, console := c, logged := l\<rparr>) = f w"
  shows "f (snd (try_catch (case x of None \<Rightarrow> ret () | Some e \<Rightarrow> raise e)
              (on_wait_failure env ro) w)) = f w"
  apply (rule try_catch_frame)
   apply (simp add: ret_def raise_def split: option.splits)
  apply (rule on_wait_failure_frame [of f, OF assms])
  done

text \<open>A termination sequence also calls a callback; it launches and registers nothing.\<close>

lemma onExit_frame:
  assumes "\<And>w h c l. f (w\<lparr>history := h, console := c, logged := l\<rparr>) = f w"
    and "\<And>w cs. f (w\<lparr>completions := cs\<rparr>) = f w"
  shows "f (snd (onExit env l res w)) = f w"
  unfolding onExit_def
  apply (rule seq_frame)
   apply (rule getContainerId_frame [of f, OF assms(1)])
  apply (rule seq_frame)
   apply (simp add: call_callback_def ret_def assms(2) split: option.splits)
  apply (rule removeContainer_frame [of f, OF assms(1)])
  apply (auto simp: process_exit_def ret_def)
  done

lemma emit_frame:
  assumes "\<And>w h c l. f (w\<lparr>history := h, console := c, logged := l\<rparr>) = f w"
    and "\<And>w cs. f (w\<lparr>completions := cs\<rparr>) = f w"
  shows "f (snd (emit env ls res w)) = f w"
proof (induction ls arbitrary: w)
  case Nil
  show ?case by (simp add: ret_def)
next
  case (Cons l ls)
  show ?case
    unfolding emit.simps
    by (rule seq_frame) (simp_all add: onExit_frame [of f, OF assms] Cons.IH)
qed

lemma deliver_spawned: "spawned (snd (deliver env this ts w)) = spawned w"
proof (induction ts arbitrary: w)
  case Nil
  show ?case by (simp add: ret_def)
next
  case (Cons t ts)
  show ?case
    unfolding deliver.simps
    by (rule seq_frame) (simp_all add: fire_def emit_frame [of spawned] Cons.IH)
qed

subsection \<open>Images\<close>

lemma split_nl_first:
  "(case split_nl s of [] \<Rightarrow> None | l # ls \<Rightarrow> Some l) = Some (takeWhile (\<lambda>c. c \<noteq> CHR 0x0A) s)"
  by (induction s) (auto split: list.splits)

lemma getImageId_Inl:
  assumes "docker env (history w) (images_command n) = Inl m"
  shows "getImageId env n w =
           (Raised (Error m), w\<lparr>history := history w @ [images_command n]\<rparr>)"
  by (simp add: getImageId_def seq_def exec_Inl [OF assms])

lemma getImageId_Inr:
  assumes "docker env (history w) (images_command n) = Inr out"
  shows "getImageId env n w =
           (Done (if takeWhile (\<lambda>c. c \<noteq> CHR 0x0A) out = [] then None
                  else Some (takeWhile (\<lambda>c. c \<noteq> CHR 0x0A) out)),
            w\<lparr>history := history w @ [images_command n]\<rparr>)"
  by (simp add: getImageId_def seq_def exec_Inr [OF assms] Let_def split_nl_first
      isEmpty_def ret_def)

text \<open>
  Claim C10. For every image name, in every world, \<open>imageExists\<close> returns \<open>true\<close> exactly
  when \<open>getImageId\<close> there returns something other than \<open>null\<close>, and fails as
  \<open>getImageId\<close> fails. \<open>getImageId\<close> runs \<open>images -q name\<close> and returns the first line of
  its output (the text before the first line feed), or \<open>null\<close> when that line is empty.
\<close>

theorem imageExists_iff_getImageId:
  "imageExists env n w =
     (case getImageId env n w of
        (Done i, w') \<Rightarrow> (Done (i \<noteq> None), w')
      | (Raised e, w') \<Rightarrow> (Raised e, w')
      | (Exited, w') \<Rightarrow> (Exited, w'))
   \<and> getImageId env n w =
     (case docker env (history w) (images_command n) of
        Inl m \<Rightarrow> (Raised (Error m), w\<lparr>history := history w @ [images_command n]\<rparr>)
      | Inr out \<Rightarrow>
          (Done (if takeWhile (\<lambda>c. c \<noteq> CHR 0x0A) out = [] then None
                 else Some (takeWhile (\<lambda>c. c \<noteq> CHR 0x0A) out)),
           w\<lparr>history := history w @ [images_command n]\<rparr>))"
proof (cases "docker env (history w) (images_command n)")
  case (Inl m)
  show ?thesis
    by (simp add: imageExists_def seq_def getImageId_Inl [OF Inl] Inl)
next
  case (Inr out)
  show ?thesis
    by (simp add: imageExists_def seq_def getImageId_Inr [OF Inr] Inr
        ret_def isEmpty_def)
qed

subsection \<open>Removing a container\<close>

text \<open>
  With \<open>null\<close> for the identifier the remove command is still executed, as
  \<open>rm -f null\<close>.
\<close>

theorem removal_of_null_counterexample:
  "history (snd (removeContainer runtime_down None None (no_options\<lparr>force := Some True\<rparr>) world0))
     = [''rm -f null'']
   \<and> history (snd (removeContainer runtime_down None None (no_options\<lparr>force := Some True\<rparr>) world0))
     \<noteq> history world0"
  by code_simp

text \<open>
  Claim C4, amended. With an absent identifier \<open>_removeContainer\<close> is not a no-op: it
  runs the remove command with the text \<open>null\<close> in place of the identifier and then
  hands over to its callback, if any. Whatever the runtime answers, the call without a
  callback returns normally, so removing twice does not raise.
\<close>

theorem removal_of_null_runs_rm:
  "(\<exists>w'. removeContainer env None cb opt w = (case cb of None \<Rightarrow> ret () | Some c \<Rightarrow> c) w'
         \<and> history w' = history w @ [''rm '' @ (if default_to False (force opt) then ''-f'' else [])
                                      @ '' null''])
   \<and> fst (seq (removeContainer env None None opt) (\<lambda>u. removeContainer env None None opt) w)
       = Done ()"
proof
  obtain w' where r: "removeContainer env None cb opt w = (case cb of None \<Rightarrow> ret () | Some c \<Rightarrow> c) w'"
    and h: "history w' = history w @ [rm_command (default_to False (force opt)) None]"
    by (rule removeContainer_cases)
  from h have "history w' = history w @ [''rm '' @ (if default_to False (force opt) then ''-f'' else [])
                                      @ '' null'']"
    by (simp add: rm_command_def)
  with r show "\<exists>w'. removeContainer env None cb opt w = (case cb of None \<Rightarrow> ret () | Some c \<Rightarrow> c) w'
         \<and> history w' = history w @ [''rm '' @ (if default_to False (force opt) then ''-f'' else [])
                                      @ '' null'']"
    by blast
next
  obtain w1 where r1: "removeContainer env None None opt w = (case None of None \<Rightarrow> ret () | Some c \<Rightarrow> c) w1"
    by (rule removeContainer_cases)
  obtain w2 where r2: "removeContainer env None None opt w1 = (case None of None \<Rightarrow> ret () | Some c \<Rightarrow> c) w2"
    by (rule removeContainer_cases)
  from r1 have "removeContainer env None None opt w = (Done (), w1)" by (simp add: ret_def)
  moreover from r2 have "removeContainer env None None opt w1 = (Done (), w2)" by (simp add: ret_def)
  ultimately show "fst (seq (removeContainer env None None opt) (\<lambda>u. removeContainer env None None opt) w)
       = Done ()"
    by (simp add: seq_def)
qed

text \<open>
  Claim C8. \<open>_removeContainer\<close> never throws: not without a callback, and not with the
  callback \<open>runInContainerAsync\<close> gives it, which only exits the host process on
  request. When the remove command fails, the failure is caught, the \<open>error\<close> sink of the
  logger in effect receives \<open>Failed to delete container\<close> followed by the failure, and the
  call returns.
\<close>

theorem removeContainer_catches_failure:
  "(\<forall>e. fst (removeContainer env cid None opt w) \<noteq> Raised e)
   \<and> (\<forall>e b. fst (removeContainer env cid (Some (if b then process_exit else ret ())) opt w)
              \<noteq> Raised e)
   \<and> (\<forall>m. docker env (history w) (rm_command (default_to False (force opt)) cid) = Inl m \<longrightarrow>
          removeContainer env cid None opt w =
            log_to (default_to DummyLogger (logger opt)) Err
              (''Failed to delete container Error: '' @ m)
              (w\<lparr>history := history w @ [rm_command (default_to False (force opt)) cid]\<rparr>))"
proof (intro conjI allI impI)
  fix e
  obtain w' where "removeContainer env cid None opt w = (case None of None \<Rightarrow> ret () | Some c \<Rightarrow> c) w'"
    by (rule removeContainer_cases)
  then show "fst (removeContainer env cid None opt w) \<noteq> Raised e"
    by (simp add: ret_def)
next
  fix e b
  obtain w' where "removeContainer env cid (Some (if b then process_exit else ret ())) opt w
      = (case Some (if b then process_exit else ret ()) of None \<Rightarrow> ret () | Some c \<Rightarrow> c) w'"
    by (rule removeContainer_cases)
  then show "fst (removeContainer env cid (Some (if b then process_exit else ret ())) opt w) \<noteq> Raised e"
    by (simp add: ret_def process_exit_def)
next
  fix m
  assume "docker env (history w) (rm_command (default_to False (force opt)) cid) = Inl m"
  from removeContainer_Inl [OF this, of None]
  show "removeContainer env cid None opt w =
            log_to (default_to DummyLogger (logger opt)) Err
              (''Failed to delete container Error: '' @ m)
              (w\<lparr>history := history w @ [rm_command (default_to False (force opt)) cid]\<rparr>)"
    by (simp add: ret_def log_to_eq [symmetric])
qed

theorem removeContainer_catches_failure_witness:
  "docker runtime_down (history world0)
     (rm_command (default_to False (force (no_options\<lparr>force := Some True\<rparr>))) (Some ''abc123''))
     = Inl ''Cannot connect to the Docker daemon''
   \<and> removeContainer runtime_down (Some ''abc123'') None (no_options\<lparr>force := Some True\<rparr>) world0
     = (Done (), world0\<lparr>history := [''rm -f abc123''],
                        console := [(Err, ''Failed to delete container Error: Cannot connect to the Docker daemon'')]\<rparr>)"
proof -
  have d: "docker runtime_down (history world0)
     (rm_command (default_to False (force (no_options\<lparr>force := Some True\<rparr>))) (Some ''abc123''))
     = Inl ''Cannot connect to the Docker daemon''"
    by (simp add: runtime_down_def)
  from removeContainer_catches_failure
    [of runtime_down "Some ''abc123''" "no_options\<lparr>force := Some True\<rparr>" world0] d
  have "removeContainer runtime_down (Some ''abc123'') None (no_options\<lparr>force := Some True\<rparr>) world0
     = log_to (default_to DummyLogger (logger (no_options\<lparr>force := Some True\<rparr>))) Err
              (''Failed to delete container Error: '' @ ''Cannot connect to the Docker daemon'')
              (world0\<lparr>history := history world0 @ [rm_command (default_to False (force (no_options\<lparr>force := Some True\<rparr>))) (Some ''abc123'')]\<rparr>)"
    by blast
  then show ?thesis
    using d by (simp add: no_options_def world0_def default_to_def rm_command_def)
qed

section \<open>Properties of the two entry points\<close>

subsection \<open>Invalid mappings\<close>

text \<open>
  When the mappings object is not array-like and some volume mapping has a value that is
  neither a string nor an object, both \<open>runInContainer\<close> and \<open>runInContainerAsync\<close> throw
  the invalid-mapping error for such a value, and nothing has been run or launched: the
  world is the one the call started in, but for the \<open>SIGINT\<close> listener that
  \<open>runInContainerAsync\<close> registers before it builds the arguments.
\<close>

lemma invalid_mapping_raises:
  assumes "\<not> isArrayLike (default_to [] (mappings opt))"
    and "(h, v) \<in> set (default_to [] (mappings opt))"
    and "\<not> isString v" and "\<not> isReallyObject v"
  shows "\<exists>v0. \<not> isString v0 \<and> \<not> isReallyObject v0 \<and>
           runInContainer env ident cmd opt w = (Raised (InvalidMappingSpec v0), w) \<and>
           runInContainerAsync env ident cmd cb opt w =
             (Raised (InvalidMappingSpec v0),
              w\<lparr>sigint_listeners := sigint_listeners w @
                   [\<lparr>l_callback = cb,
                     l_runOptions = opts (Some (default_to [] (runOptions opt)))
                                      [(''name'', JStr (clock env))],
                     l_logger = default_to DummyLogger (logger opt),
                     l_exitOnEnd = default_to False (exitOnEnd opt)\<rparr>]\<rparr>)"
proof -
  from each_bind_invalid [OF assms(2-4)] obtain v0 where
    v0: "\<not> isString v0" "\<not> isReallyObject v0"
    and "each_bind (default_to [] (mappings opt)) [] = Inl (InvalidMappingSpec v0)"
    by blast
  with assms(1) have g: "getBinds (default_to [] (mappings opt)) = Inl (InvalidMappingSpec v0)"
    by (simp add: getBinds_def each_visits_plain)
  have p: "parseRunCommandArguments ident cmd ro (default_to [] (mappings opt))
             = Inl (InvalidMappingSpec v0)" for ro
    by (simp add: parseRunCommandArguments_def g)
  have "runInContainer env ident cmd opt w = (Raised (InvalidMappingSpec v0), w)"
    by (simp add: runInContainer_def p raise_def)
  moreover have "runInContainerAsync env ident cmd cb opt w =
             (Raised (InvalidMappingSpec v0),
              w\<lparr>sigint_listeners := sigint_listeners w @
                   [\<lparr>l_callback = cb,
                     l_runOptions = opts (Some (default_to [] (runOptions opt)))
                                      [(''name'', JStr (clock env))],
                     l_logger = default_to DummyLogger (logger opt),
                     l_exitOnEnd = default_to False (exitOnEnd opt)\<rparr>]\<rparr>)"
    by (simp add: runInContainerAsync_def Let_def p raise_def seq_def register_sigint_def)
  ultimately show ?thesis using v0 by blast
qed

text \<open>
  Claim C7. Every volume-mapping value that is neither a string nor an object, such as
  the number \<open>42\<close>, makes argument building raise the invalid-mapping error before any
  process is launched, for \<open>runInContainer\<close> and for \<open>runInContainerAsync\<close>. The guard of
  \<open>_getBinds\<close> (index.js 45-52) does this for every value it is given, but it is given
  the values through \<open>_.each\<close>, which takes a mappings object with a \<open>length\<close> that is a
  non-negative integer for array-like and visits its indices only. The theorem evaluates
  both entry points on the mapping of \<open>/tmp/a\<close> to \<open>42\<close> beside a \<open>length\<close> of \<open>0\<close>:
  nothing is raised, and docker is run and launched.
\<close>

theorem array_like_mapping_not_rejected:
  "\<not> isString (JNum 42) \<and> \<not> isReallyObject (JNum 42)
   \<and> runInContainer runtime_echo (JStr ''centos'') (JStr ''true'')
        (no_options\<lparr>mappings := Some [(''/tmp/a'', JNum 42), (''length'', JNum 0)]\<rparr>) world0
       = (Done ''run --interactive centos true'',
          world0\<lparr>history := [''run --interactive centos true'']\<rparr>)
   \<and> fst (runInContainerAsync runtime_echo (JStr ''centos'') (JStr ''true'') (Some 1)
        (no_options\<lparr>mappings := Some [(''/tmp/a'', JNum 42), (''length'', JNum 0)]\<rparr>) world0)
       = Done ()
   \<and> spawned (snd (runInContainerAsync runtime_echo (JStr ''centos'') (JStr ''true'') (Some 1)
        (no_options\<lparr>mappings := Some [(''/tmp/a'', JNum 42), (''length'', JNum 0)]\<rparr>) world0))
       = [''docker run --name 1700000000 --interactive centos true'']"
  by code_simp

subsection \<open>The command line that is launched\<close>

lemma runInContainerAsync_Inr:
  assumes "parseRunCommandArguments ident cmd
             (Some (opts (Some (default_to [] (runOptions opt))) [(''name'', JStr (clock env))]))
             (default_to [] (mappings opt)) = Inr args"
    and "this = \<lparr>l_callback = cb,
                 l_runOptions = opts (Some (default_to [] (runOptions opt)))
                                  [(''name'', JStr (clock env))],
                 l_logger = default_to DummyLogger (logger opt),
                 l_exitOnEnd = default_to False (exitOnEnd opt)\<rparr>"
  shows "runInContainerAsync env ident cmd cb opt w =
           seq (deliver env this (triggers env))
               (\<lambda>u. try_catch
                       (case wait_throws env (default_to (Seconds 10800) (timeout opt)) of
                          None \<Rightarrow> ret ()
                        | Some e \<Rightarrow> raise e)
                       (on_wait_failure env
                          (opts (Some (default_to [] (runOptions opt))) [(''name'', JStr (clock env))])))
               (w\<lparr>sigint_listeners := sigint_listeners w @ [this],
                  spawned := spawned w @ [''docker '' @ js_join '' '' args]\<rparr>)"
  by (simp add: runInContainerAsync_def Let_def assms seq_def [of "register_sigint l" for l]
      seq_def [of "execAsync c" for c] register_sigint_def execAsync_def)

lemma runInContainerAsync_spawned:
  assumes "parseRunCommandArguments ident cmd
             (Some (opts (Some (default_to [] (runOptions opt))) [(''name'', JStr (clock env))]))
             (default_to [] (mappings opt)) = Inr args"
  shows "spawned (snd (runInContainerAsync env ident cmd cb opt w))
           = spawned w @ [''docker '' @ js_join '' '' args]"
  unfolding runInContainerAsync_Inr [OF assms refl]
  apply (subst seq_frame [where f = spawned])
    apply (rule deliver_spawned)
   apply (rule wait_end_frame [of spawned])
   apply simp
  apply simp
  done

text \<open>
  When the caller's run options are not array-like and \<open>runOptions.interactive\<close> is not
  \<open>false\<close>, every argument list built for \<open>runInContainer\<close> and for
  \<open>runInContainerAsync\<close> has the element \<open>--interactive\<close>, and that list, joined by
  spaces, is the command line that \<open>runInContainer\<close> executes and that
  \<open>runInContainerAsync\<close> launches after \<open>docker\<close>.
\<close>

lemma interactive_by_default:
  assumes "\<not> isArrayLike (default_to [] (runOptions opt))"
    and "js_get (JObj (default_to [] (runOptions opt))) ''interactive'' \<noteq> JBool False"
  shows "(\<forall>args. parseRunCommandArguments ident cmd (Some (default_to [] (runOptions opt)))
                   (default_to [] (mappings opt)) = Inr args \<longrightarrow>
            JStr ''--interactive'' \<in> set args \<and>
            runInContainer env ident cmd opt w = exec env (js_join '' '' args) w)
       \<and> (\<forall>args. parseRunCommandArguments ident cmd
                   (Some (opts (Some (default_to [] (runOptions opt))) [(''name'', JStr (clock env))]))
                   (default_to [] (mappings opt)) = Inr args \<longrightarrow>
            JStr ''--interactive'' \<in> set args \<and>
            spawned (snd (runInContainerAsync env ident cmd cb opt w))
              = spawned w @ [''docker '' @ js_join '' '' args])"
proof (intro conjI allI impI)
  fix args
  assume p: "parseRunCommandArguments ident cmd (Some (default_to [] (runOptions opt)))
               (default_to [] (mappings opt)) = Inr args"
  from parseRunCommandArguments_interactive [OF assms p]
  show "JStr ''--interactive'' \<in> set args" .
  from p show "runInContainer env ident cmd opt w = exec env (js_join '' '' args) w"
    by (simp add: runInContainer_def)
next
  fix args
  let ?ro = "opts (Some (default_to [] (runOptions opt))) [(''name'', JStr (clock env))]"
  assume p: "parseRunCommandArguments ident cmd (Some ?ro) (default_to [] (mappings opt)) = Inr args"
  have "js_get (JObj ?ro) ''interactive'' = js_get (JObj (default_to [] (runOptions opt))) ''interactive''"
    by (rule opts_other_key) simp
  with assms(2) have i: "js_get (JObj ?ro) ''interactive'' \<noteq> JBool False" by simp
  from assms(1) have a: "\<not> isArrayLike ?ro" by (simp add: isArrayLike_opts)
  from parseRunCommandArguments_interactive [OF a i p]
  show "JStr ''--interactive'' \<in> set args" .
  from runInContainerAsync_spawned [OF p]
  show "spawned (snd (runInContainerAsync env ident cmd cb opt w))
          = spawned w @ [''docker '' @ js_join '' '' args]" .
qed

text \<open>
  Claim C9. Every command line built for \<open>runInContainer\<close> and
  \<open>runInContainerAsync\<close> includes \<open>--interactive\<close> unless the caller sets the run option
  \<open>interactive\<close> to \<open>false\<close>, because \<open>_parseRunCommandArguments\<close> installs
  \<open>interactive: null\<close> as a default. The default is installed for every call, and the
  repository's tests expect the flag, but \<open>_parseRunOptions\<close> reads the options through
  \<open>_.each\<close>, which takes run options with a \<open>length\<close> that is a non-negative integer
  for array-like and visits their indices only. The theorem evaluates both entry points
  on the run options \<open>{length: 0}\<close>, which do not set \<open>interactive\<close>: no option is
  emitted, the default included.
\<close>

theorem array_like_run_options_drop_interactive:
  "js_get (JObj (default_to [] (runOptions (no_options\<lparr>runOptions := Some [(''length'', JNum 0)]\<rparr>))))
     ''interactive'' \<noteq> JBool False
   \<and> runInContainer runtime_echo (JStr ''centos'') (JStr ''true'')
        (no_options\<lparr>runOptions := Some [(''length'', JNum 0)]\<rparr>) world0
       = (Done ''run centos true'', world0\<lparr>history := [''run centos true'']\<rparr>)
   \<and> spawned (snd (runInContainerAsync runtime_echo (JStr ''centos'') (JStr ''true'') (Some 1)
        (no_options\<lparr>runOptions := Some [(''length'', JNum 0)]\<rparr>) world0))
       = [''docker run centos true'']"
  by code_simp

subsection \<open>A wait that throws\<close>

text \<open>
  Claim C2. If the wait runs into its timeout, the controller looks the container up by
  its assigned name, removes it as far as it can, and re-raises the timeout; the
  completion callback is not called. The code does so when the lookup answers. The
  lookup in the \<open>catch\<close> block (index.js 207) is not guarded, though, as the removal
  is: when the docker command of the lookup fails, that failure is thrown from the
  \<open>catch\<close> block in place of the timeout, and no removal is attempted. The theorem
  evaluates the call with a runtime that cannot be reached: the caller gets the failure
  of the lookup, and the lookup is the only command run.
\<close>

theorem timeout_with_failing_lookup:
  "wait_throws runtime_down (Seconds 10800) = Some (Error ''Exceeded timeout'')
   \<and> fst (runInContainerAsync runtime_down (JStr ''img'') (JStr ''sleep 100'') (Some 1) no_options world0)
       = Raised (Error ''Cannot connect to the Docker daemon'')
   \<and> history (snd (runInContainerAsync runtime_down (JStr ''img'') (JStr ''sleep 100'') (Some 1)
                     no_options world0))
       = [ps_command ''1700000000'']"
  by code_simp

subsection \<open>Termination sequences\<close>

text \<open>
  Of a list of termination sequences to run, each with its listener and result, those
  that do run are the ones up to and including the first whose listener exits the host
  process.
\<close>

lemma ran_append:
  "takeWhile P (xs @ ys) @ take 1 (dropWhile P (xs @ ys)) =
     (if list_all P xs then xs @ (takeWhile P ys @ take 1 (dropWhile P ys))
      else takeWhile P xs @ take 1 (dropWhile P xs))"
  by (induction xs) simp_all

lemma onExit_step:
  assumes "docker env (history w) (ps_command (js_toString (js_get (JObj (l_runOptions l)) ''name'')))
             = Inr out"
  shows "\<exists>cid w'. onExit env l res w = (if l_exitOnEnd l then Exited else Done (), w') \<and>
           completions w' = completions w @
             (case l_callback l of None \<Rightarrow> [] | Some c \<Rightarrow> [(c, cid, res)]) \<and>
           sigint_listeners w' = sigint_listeners w"
proof -
  let ?ps = "ps_command (js_toString (js_get (JObj (l_runOptions l)) ''name''))"
  let ?cid = "if remove_first_nl out = [] then None else Some (remove_first_nl out)"
  let ?w1 = "w\<lparr>history := history w @ [?ps]\<rparr>"
  let ?opt = "\<lparr>mappings = None, runOptions = None, logger = Some (l_logger l),
               timeout = None, exitOnEnd = None, force = Some True\<rparr>"
  let ?k = "if l_exitOnEnd l then process_exit else ret ()"
  let ?call = "case l_callback l of Some c \<Rightarrow> call_callback c ?cid res | None \<Rightarrow> ret ()"
  have g: "getContainerId env (js_toString (js_get (JObj (l_runOptions l)) ''name'')) w = (Done ?cid, ?w1)"
    using getContainerId_Inr [OF assms] by (simp del: js_get.simps)
  obtain w2 where c: "?call ?w1 = (Done (), w2)"
    and w2: "completions w2 = completions w @
               (case l_callback l of None \<Rightarrow> [] | Some c \<Rightarrow> [(c, ?cid, res)])"
    and s2: "sigint_listeners w2 = sigint_listeners w"
    by (cases "l_callback l") (simp_all add: call_callback_def ret_def)
  obtain w3 where r: "removeContainer env ?cid (Some ?k) ?opt w2 =
                        (case Some ?k of None \<Rightarrow> ret () | Some c \<Rightarrow> c) w3"
    and w3: "completions w3 = completions w2"
    and s3: "sigint_listeners w3 = sigint_listeners w2"
    by (rule removeContainer_cases)
  from r have r': "removeContainer env ?cid (Some ?k) ?opt w2 =
                     (if l_exitOnEnd l then Exited else Done (), w3)"
    by (simp add: process_exit_def ret_def)
  have "onExit env l res w = seq ?call (\<lambda>u. removeContainer env ?cid (Some ?k) ?opt) ?w1"
    unfolding onExit_def by (simp add: seq_def [of "getContainerId env n" for n] g del: js_get.simps)
  also have "\<dots> = removeContainer env ?cid (Some ?k) ?opt w2"
    unfolding seq_def c by simp
  also have "\<dots> = (if l_exitOnEnd l then Exited else Done (), w3)"
    by (rule r')
  finally show ?thesis using w2 w3 s2 s3 by auto
qed

lemma emit_run:
  assumes "\<And>h n. \<exists>out. docker env h (ps_command n) = Inr out"
  shows "\<exists>w'. emit env ls res w =
                 (if list_all (\<lambda>(l, r). \<not> l_exitOnEnd l) (map (\<lambda>l. (l, res)) ls)
                  then Done () else Exited, w') \<and>
              map (\<lambda>(c, cid, r). (c, r)) (completions w') =
                map (\<lambda>(c, cid, r). (c, r)) (completions w) @
                concat (map (\<lambda>(l, r). case l_callback l of None \<Rightarrow> [] | Some c \<Rightarrow> [(c, r)])
                          (takeWhile (\<lambda>(l, r). \<not> l_exitOnEnd l) (map (\<lambda>l. (l, res)) ls)
                           @ take 1 (dropWhile (\<lambda>(l, r). \<not> l_exitOnEnd l)
                                       (map (\<lambda>l. (l, res)) ls)))) \<and>
              sigint_listeners w' = sigint_listeners w"
proof (induction ls arbitrary: w)
  case Nil
  show ?case by (simp add: ret_def)
next
  case (Cons l ls)
  from assms obtain out where
    "docker env (history w) (ps_command (js_toString (js_get (JObj (l_runOptions l)) ''name'')))
       = Inr out" by blast
  from onExit_step [OF this, of res] obtain cid w1 where
    s: "onExit env l res w = (if l_exitOnEnd l then Exited else Done (), w1)"
    and c: "completions w1 = completions w @
              (case l_callback l of None \<Rightarrow> [] | Some c \<Rightarrow> [(c, cid, res)])"
    and k: "sigint_listeners w1 = sigint_listeners w"
    by blast
  show ?case
  proof (cases "l_exitOnEnd l")
    case True
    with s have "emit env (l # ls) res w = (Exited, w1)"
      by (simp add: seq_def)
    with c k True show ?thesis
      by (auto split: option.splits)
  next
    case False
    with s have e: "emit env (l # ls) res w = emit env ls res w1"
      by (simp add: seq_def)
    from Cons.IH [of w1] obtain w' where
      "emit env ls res w1 =
         (if list_all (\<lambda>(l, r). \<not> l_exitOnEnd l) (map (\<lambda>l. (l, res)) ls)
          then Done () else Exited, w')"
      and "map (\<lambda>(c, cid, r). (c, r)) (completions w') =
             map (\<lambda>(c, cid, r). (c, r)) (completions w1) @
             concat (map (\<lambda>(l, r). case l_callback l of None \<Rightarrow> [] | Some c \<Rightarrow> [(c, r)])
                       (takeWhile (\<lambda>(l, r). \<not> l_exitOnEnd l) (map (\<lambda>l. (l, res)) ls)
                        @ take 1 (dropWhile (\<lambda>(l, r). \<not> l_exitOnEnd l)
                                    (map (\<lambda>l. (l, res)) ls))))"
      and "sigint_listeners w' = sigint_listeners w1"
      by blast
    with e c k False show ?thesis
      by (auto split: option.splits)
  qed
qed

lemma deliver_run:
  assumes "\<And>h n. \<exists>out. docker env h (ps_command n) = Inr out"
    and "sigint_listeners w = registered"
    and "invocations = concat (map (\<lambda>t. map (\<lambda>l. (l, trigger_result t)) (targets this registered t)) ts)"
  shows "\<exists>w'. deliver env this ts w =
                 (if list_all (\<lambda>(l, r). \<not> l_exitOnEnd l) invocations then Done () else Exited, w') \<and>
              map (\<lambda>(c, cid, r). (c, r)) (completions w') =
                map (\<lambda>(c, cid, r). (c, r)) (completions w) @
                concat (map (\<lambda>(l, r). case l_callback l of None \<Rightarrow> [] | Some c \<Rightarrow> [(c, r)])
                          (takeWhile (\<lambda>(l, r). \<not> l_exitOnEnd l) invocations
                           @ take 1 (dropWhile (\<lambda>(l, r). \<not> l_exitOnEnd l) invocations))) \<and>
              sigint_listeners w' = registered"
  using assms(2,3)
proof (induction ts arbitrary: w invocations)
  case Nil
  then show ?case by (simp add: ret_def)
next
  case (Cons t ts)
  let ?X = "\<lambda>(l :: listener, r :: jsval). \<not> l_exitOnEnd l"
  let ?C = "\<lambda>(l :: listener, r :: jsval). case l_callback l of None \<Rightarrow> [] | Some c \<Rightarrow> [(c, r)]"
  let ?P = "map (\<lambda>(c :: nat, cid :: string option, r :: jsval). (c, r))"
  let ?now = "map (\<lambda>l. (l, trigger_result t)) (targets this registered t)"
  let ?later = "concat (map (\<lambda>t. map (\<lambda>l. (l, trigger_result t)) (targets this registered t)) ts)"
  from Cons.prems have inv: "invocations = ?now @ ?later" and reg: "sigint_listeners w = registered"
    by simp_all
  from emit_run [OF assms(1), of "targets this registered t" "trigger_result t" w] obtain w1 where
    e: "emit env (targets this registered t) (trigger_result t) w =
          (if list_all ?X ?now then Done () else Exited, w1)"
    and c: "?P (completions w1) = ?P (completions w) @
              concat (map ?C (takeWhile ?X ?now @ take 1 (dropWhile ?X ?now)))"
    and k: "sigint_listeners w1 = sigint_listeners w"
    by blast
  from e reg have f: "fire env this t w = (if list_all ?X ?now then Done () else Exited, w1)"
    by (simp add: fire_def)
  show ?case
  proof (cases "list_all ?X ?now")
    case False
    with f have "deliver env this (t # ts) w = (Exited, w1)"
      by (simp add: seq_def)
    with c k reg False show ?thesis
      unfolding inv ran_append [of ?X ?now ?later] by (simp del: deliver.simps)
  next
    case True
    with f have d: "deliver env this (t # ts) w = deliver env this ts w1"
      by (simp add: seq_def)
    from k reg have "sigint_listeners w1 = registered" by simp
    from Cons.IH [OF this refl] obtain w' where
      "deliver env this ts w1 = (if list_all ?X ?later then Done () else Exited, w')"
      and "?P (completions w') = ?P (completions w1) @
             concat (map ?C (takeWhile ?X ?later @ take 1 (dropWhile ?X ?later)))"
      and "sigint_listeners w' = registered"
      by blast
    moreover from True have "takeWhile ?X ?now = ?now" and "dropWhile ?X ?now = []"
      by (simp_all add: list_all_iff)
    with c have "?P (completions w1) = ?P (completions w) @ concat (map ?C ?now)"
      by simp
    ultimately show ?thesis
      using d True unfolding inv ran_append [of ?X ?now ?later]
      by (simp del: deliver.simps)
  qed
qed

text \<open>
  An interrupt followed by the exit of the launched process, with no listener of an
  earlier call around: the termination sequence of the call runs twice, and its
  completion callback is called twice.
\<close>

theorem interrupt_then_exit_counterexample:
  "triggers runtime_interrupted = [Sigint, ProcessExit (JObj [(''code'', JNum 0)])]
   \<and> completions (snd (runInContainerAsync runtime_interrupted (JStr ''img'') (JStr ''true'')
                         (Some 1) no_options world0))
       = [(1, Some ''abc123'', JObj [(''exitCode'', JNum 127)]),
          (1, None, JObj [(''code'', JNum 0)])]
   \<and> length (completions (snd (runInContainerAsync runtime_interrupted (JStr ''img'') (JStr ''true'')
                                 (Some 1) no_options world0))) = 2"
  by code_simp

text \<open>
  Claim C1, amended. There is no once-only guard, and the \<open>SIGINT\<close> listener of a call
  is never removed: when the call ends the listener is registered after those the host
  process already had. While the call waits, the exit of the launched process runs the
  termination sequence of this call, and an interrupt runs the termination sequence of
  every listener registered, those of earlier calls first and this call's last. As long
  as the name lookups answer and the arguments can be built, the sequences run in the
  order of the triggers, up to and including the first one whose call asked for
  \<open>exitOnEnd\<close>, which ends the host process; each sequence that runs calls the completion
  callback of its own call, if it has one, once, with the result of the trigger; and
  nothing else calls a completion callback before the call ends, the handling of a
  timeout included. So with no earlier listener and without \<open>exitOnEnd\<close>, the callback
  is called once for each trigger: exactly once when exactly one trigger fires, not at
  all when the wait throws before any trigger.
\<close>

theorem onComplete_once_per_sequence:
  assumes ro: "ro = opts (Some (default_to [] (runOptions opt))) [(''name'', JStr (clock env))]"
    and lst: "this = \<lparr>l_callback = cb, l_runOptions = ro,
                         l_logger = default_to DummyLogger (logger opt),
                         l_exitOnEnd = default_to False (exitOnEnd opt)\<rparr>"
    and lookups: "\<forall>h n. \<exists>out. docker env h (ps_command n) = Inr out"
    and p: "parseRunCommandArguments ident cmd (Some ro) (default_to [] (mappings opt)) = Inr args"
    and sequences: "sequences =
           concat (map (\<lambda>t. map (\<lambda>l. (l, trigger_result t))
                               (targets this (sigint_listeners w @ [this]) t))
                     (triggers env))"
  shows "map (\<lambda>(c, cid, r). (c, r))
             (completions (snd (runInContainerAsync env ident cmd cb opt w))) =
           map (\<lambda>(c, cid, r). (c, r)) (completions w) @
           concat (map (\<lambda>(l, r). case l_callback l of None \<Rightarrow> [] | Some c \<Rightarrow> [(c, r)])
                     (takeWhile (\<lambda>(l, r). \<not> l_exitOnEnd l) sequences
                      @ take 1 (dropWhile (\<lambda>(l, r). \<not> l_exitOnEnd l) sequences)))
         \<and> sigint_listeners (snd (runInContainerAsync env ident cmd cb opt w)) =
             sigint_listeners w @ [this]"
proof -
  let ?w1 = "w\<lparr>sigint_listeners := sigint_listeners w @ [this],
               spawned := spawned w @ [''docker '' @ js_join '' '' args]\<rparr>"
  let ?rest = "\<lambda>u::unit. try_catch
                 (case wait_throws env (default_to (Seconds 10800) (timeout opt)) of
                    None \<Rightarrow> ret ()
                  | Some e \<Rightarrow> raise e)
                 (on_wait_failure env ro)"
  let ?X = "\<lambda>(l :: listener, r :: jsval). \<not> l_exitOnEnd l"
  let ?C = "\<lambda>(l :: listener, r :: jsval). case l_callback l of None \<Rightarrow> [] | Some c \<Rightarrow> [(c, r)]"
  let ?P = "map (\<lambda>(c :: nat, cid :: string option, r :: jsval). (c, r))"
  have run: "runInContainerAsync env ident cmd cb opt w = seq (deliver env this (triggers env)) ?rest ?w1"
    using runInContainerAsync_Inr [OF p [unfolded ro] lst [unfolded ro], of w]
    by (simp only: ro [symmetric])
  from lookups have l: "\<exists>out. docker env h (ps_command n) = Inr out" for h n
    by blast
  have reg: "sigint_listeners ?w1 = sigint_listeners w @ [this]" by simp
  from deliver_run [OF l reg sequences] obtain w2 where
    d: "deliver env this (triggers env) ?w1 = (if list_all ?X sequences then Done () else Exited, w2)"
    and c: "?P (completions w2) = ?P (completions ?w1) @
              concat (map ?C (takeWhile ?X sequences @ take 1 (dropWhile ?X sequences)))"
    and k: "sigint_listeners w2 = sigint_listeners w @ [this]"
    by blast
  have "completions (snd (seq (deliver env this (triggers env)) ?rest ?w1)) = completions w2
        \<and> sigint_listeners (snd (seq (deliver env this (triggers env)) ?rest ?w1))
            = sigint_listeners w2"
  proof (cases "list_all ?X sequences")
    case True
    with d have "seq (deliver env this (triggers env)) ?rest ?w1 = ?rest () w2"
      by (simp add: seq_def)
    then show ?thesis
      by (simp add: wait_end_frame [of completions] wait_end_frame [of sigint_listeners])
  next
    case False
    with d show ?thesis by (simp add: seq_def)
  qed
  with c k show ?thesis by (simp add: run)
qed

theorem onComplete_once_per_sequence_witness:
  "(\<forall>h n. \<exists>out. docker (runtime_echo\<lparr>triggers := [Sigint, ProcessExit (JObj [(''code'', JNum 0)])]\<rparr>)
                       h (ps_command n) = Inr out)
   \<and> map (\<lambda>(c, cid, r). (c, r))
         (completions (snd (runInContainerAsync
            (runtime_echo\<lparr>triggers := [Sigint, ProcessExit (JObj [(''code'', JNum 0)])]\<rparr>)
            (JStr ''img'') (JStr ''true'') (Some 2) no_options
            (world0\<lparr>sigint_listeners := [earlier_listener]\<rparr>))))
       = [(1, JObj [(''exitCode'', JNum 127)]),
          (2, JObj [(''exitCode'', JNum 127)]),
          (2, JObj [(''code'', JNum 0)])]"
proof -
  let ?env = "runtime_echo\<lparr>triggers := [Sigint, ProcessExit (JObj [(''code'', JNum 0)])]\<rparr>"
  let ?w = "world0\<lparr>sigint_listeners := [earlier_listener]\<rparr>"
  let ?ro = "[(''name'', JStr ''1700000000'')]"
  let ?this = "\<lparr>l_callback = Some 2, l_runOptions = ?ro,
                 l_logger = default_to DummyLogger (logger no_options),
                 l_exitOnEnd = default_to False (exitOnEnd no_options)\<rparr>"
  let ?args = "[JStr ''run'', JStr ''--name'', JStr ''1700000000'', JStr ''--interactive'',
                JStr ''img'', JStr ''true'']"
  have ro: "?ro = opts (Some (default_to [] (runOptions no_options))) [(''name'', JStr (clock ?env))]"
    by code_simp
  have l: "\<forall>h n. \<exists>out. docker ?env h (ps_command n) = Inr out"
    by (simp add: runtime_echo_def)
  have p: "parseRunCommandArguments (JStr ''img'') (JStr ''true'') (Some ?ro)
             (default_to [] (mappings no_options)) = Inr ?args"
    by code_simp
  from onComplete_once_per_sequence [OF ro refl l p refl, of "Some 2" ?w] l
  show ?thesis
    by (simp add: world0_def no_options_def default_to_def earlier_listener_def runtime_echo_def)
qed

end
